theory Spec2Isabelle
  imports Complex_Main "HOL-Library.Multiset"
begin

section \<open>StepSight: the obstacle alert pipeline of AIDetectionService\<close>

text \<open>
  A shallow embedding of \<^verbatim>\<open>src/services/AIDetectionService.ts\<close> (class
  \<^verbatim>\<open>AIDetectionService\<close>), of the first-generation service
  \<^verbatim>\<open>DetectionService\<close> (\<^verbatim>\<open>src/unnamed/part_005\<close>) where a property names it, and of
  the step length handler of the settings screen.

  Conventions of the embedding.
  \<^item> A TypeScript \<^verbatim>\<open>number\<close> that holds a measurement (confidence, distance, position)
    is a \<^typ>\<open>real\<close>, the value of the double. The arithmetic of the filters, the
    tracker and the scorer is taken exactly; the two divisions of \<open>metersToSteps\<close>, whose
    ceiling depends on the last bit of the quotient, round to binary64 as the code's do.
  \<^item> \<^verbatim>\<open>steps\<close> is an \<^typ>\<open>int\<close>: every producer of a detection in the repository
    computes it with \<^verbatim>\<open>Math.ceil\<close> or \<^verbatim>\<open>Math.floor\<close>.
  \<^item> Times are \<^typ>\<open>int\<close> milliseconds, as \<^verbatim>\<open>Date.now()\<close> returns them. One tick reads
    the clock several times; the model passes one reading \<open>now\<close> to all of them.
  \<^item> The velocity of the tracker, a division whose divisor can be zero, is a \<open>jsnum\<close>,
    which has JavaScript's \<^verbatim>\<open>Infinity\<close> and \<^verbatim>\<open>NaN\<close>.
  \<^item> The mutable maps of the class are fields of the record \<open>service\<close>; a method that
    mutates them returns the new record.
\<close>

subsection \<open>Numbers and strings of JavaScript\<close>

datatype jsnum = Num real | Infinity | NaN

text \<open>\<^verbatim>\<open>a / b\<close> for a numerator \<open>a \<ge> 0\<close> (here always a \<^verbatim>\<open>Math.sqrt\<close>) and a
  divisor that is \<open>+0\<close> when it is zero.\<close>

definition jsdiv :: "real \<Rightarrow> real \<Rightarrow> jsnum" where
  "jsdiv a b = (if b \<noteq> 0 then Num (a / b) else if a > 0 then Infinity else NaN)"

text \<open>\<^verbatim>\<open>v > c\<close> for a finite \<open>c\<close>.\<close>

fun jsgt :: "jsnum \<Rightarrow> real \<Rightarrow> bool" where
  "jsgt (Num r) c = (r > c)"
| "jsgt Infinity c = True"
| "jsgt NaN c = False"

text \<open>Truthiness of an optional number: \<^verbatim>\<open>undefined\<close>, \<open>0\<close> and \<^verbatim>\<open>NaN\<close> are falsy.\<close>

fun truthyNum :: "jsnum option \<Rightarrow> bool" where
  "truthyNum None = False"
| "truthyNum (Some (Num r)) = (r \<noteq> 0)"
| "truthyNum (Some Infinity) = True"
| "truthyNum (Some NaN) = False"

text \<open>\<^verbatim>\<open>v || 0\<close>.\<close>

definition orZero :: "jsnum option \<Rightarrow> jsnum" where
  "orZero v = (if truthyNum v then the v else Num 0)"

text \<open>\<^verbatim>\<open>Math.max\<close> of two numbers, and of a non-empty argument list.\<close>

fun jsmax :: "jsnum \<Rightarrow> jsnum \<Rightarrow> jsnum" where
  "jsmax NaN b = NaN"
| "jsmax a NaN = NaN"
| "jsmax Infinity b = Infinity"
| "jsmax a Infinity = Infinity"
| "jsmax (Num a) (Num b) = Num (max a b)"

fun jsmaxList :: "jsnum list \<Rightarrow> jsnum" where
  "jsmaxList [] = Num 0"
| "jsmaxList (v # vs) = fold jsmax vs v"

fun maxList :: "real list \<Rightarrow> real" where
  "maxList [] = 0"
| "maxList (v # vs) = fold max vs v"

text \<open>Truthiness of an optional boolean (\<^verbatim>\<open>isMoving?: boolean\<close>).\<close>

definition truthy :: "bool option \<Rightarrow> bool" where
  "truthy b = (b = Some True)"

text \<open>Decimal digits of an integer, as a template literal prints it; \<open>digit\<close> is
  only applied to numbers below ten.\<close>

definition digit :: "nat \<Rightarrow> char" where
  "digit n = ''0123456789'' ! n"

function showNat :: "nat \<Rightarrow> string" where
  "showNat n = (if n < 10 then [digit n] else showNat (n div 10) @ [digit (n mod 10)])"
  by pat_completeness auto
termination
  by (relation "measure (\<lambda>n. n)") auto

declare showNat.simps [simp del]

definition showInt :: "int \<Rightarrow> string" where
  "showInt i = (if i < 0 then CHR ''-'' # showNat (nat (- i)) else showNat (nat i))"

text \<open>\<^verbatim>\<open>String.prototype.includes\<close>.\<close>

fun startsWith :: "string \<Rightarrow> string \<Rightarrow> bool" where
  "startsWith s [] = True"
| "startsWith [] (c # cs) = False"
| "startsWith (a # s) (c # cs) = (a = c \<and> startsWith s cs)"

fun includesStr :: "string \<Rightarrow> string \<Rightarrow> bool" where
  "includesStr [] p = (p = [])"
| "includesStr (a # s) p = (startsWith (a # s) p \<or> includesStr s p)"

subsection \<open>Data model\<close>

record BoundingBox =
  box_x :: real
  box_y :: real
  box_width :: real
  box_height :: real

record Detection =
  det_id :: string
  label :: string
  confidence :: real
  distance :: real
  steps :: int
  x :: real
  y :: real
  width :: real
  height :: real
  timestamp :: int
  isMoving :: "bool option"
  velocity :: "jsnum option"
  boundingBox :: BoundingBox

datatype AlertType = urgent | warning | info

record ProcessedAlert =
  detection :: Detection
  priority :: real
  shouldAnnounce :: bool
  shouldVibrate :: bool
  message :: string
  suppressUntil :: "int option"
  alertType :: AlertType

record service =
  stepLength :: real
  lastAlerts :: "string \<Rightarrow> int option"
  objectTracker :: "string \<Rightarrow> Detection list option"

subsection \<open>Configuration constants\<close>

definition CENTER_FOV_THRESHOLD :: real where "CENTER_FOV_THRESHOLD = 0.25"
definition ALERT_COOLDOWN_MS :: int where "ALERT_COOLDOWN_MS = 4000"
definition POSITION_CHANGE_THRESHOLD :: real where "POSITION_CHANGE_THRESHOLD = 0.15"
definition CLUSTER_DISTANCE_THRESHOLD :: real where "CLUSTER_DISTANCE_THRESHOLD = 0.8"
definition MIN_CONFIDENCE :: real where "MIN_CONFIDENCE = 0.6"
definition TRACKING_HISTORY_SIZE :: nat where "TRACKING_HISTORY_SIZE = 5"
definition MOVEMENT_THRESHOLD :: real where "MOVEMENT_THRESHOLD = 0.05"

definition CRITICAL_OBJECTS :: "string list" where
  "CRITICAL_OBJECTS = [''person'', ''car'', ''bicycle'', ''motorcycle'', ''truck'']"
definition WARNING_OBJECTS :: "string list" where
  "WARNING_OBJECTS = [''chair'', ''table'', ''door'', ''pole'', ''stairs'', ''step'']"
definition INFO_OBJECTS :: "string list" where
  "INFO_OBJECTS = [''wall'', ''tree'', ''bench'', ''trash can'', ''sign'']"

subsection \<open>IEEE 754 doubles\<close>

text \<open>
  \<open>metersToSteps\<close> divides twice and then takes a ceiling, so the rounding of the two
  quotients decides the step count at the integer boundaries. The division of doubles is
  the exact quotient rounded to the nearest binary64 value, ties to even: \<open>binade a\<close> is
  the exponent of \<open>a\<close> clamped to the range of the format (the subnormals share the
  exponent \<open>-1022\<close>), \<open>roundPos\<close> rounds a magnitude on the grid of that exponent, with
  53 significant bits, and \<open>binary64\<close> restores the sign and overflows to an infinity.
  The sign of a zero is not modelled: a zero divisor is \<open>+0\<close>.
\<close>

definition roundEven :: "real \<Rightarrow> int" where
  "roundEven v =
     (let f = \<lfloor>v\<rfloor>; r = v - of_int f
      in if r < 1/2 then f else if r > 1/2 then f + 1 else if even f then f else f + 1)"

function binadeUp :: "real \<Rightarrow> int \<Rightarrow> int" where
  "binadeUp a e = (if e < 1023 \<and> 2 powi (e + 1) \<le> a then binadeUp a (e + 1) else e)"
  by pat_completeness auto
termination
  by (relation "measure (\<lambda>(a, e). nat (1023 - e))") auto

function binadeDown :: "real \<Rightarrow> int \<Rightarrow> int" where
  "binadeDown a e = (if - 1022 < e \<and> a < 2 powi e then binadeDown a (e - 1) else e)"
  by pat_completeness auto
termination
  by (relation "measure (\<lambda>(a, e). nat (e + 1022))") auto

declare binadeUp.simps [simp del] binadeDown.simps [simp del]

definition binade :: "real \<Rightarrow> int" where
  "binade a = (if 1 \<le> a then binadeUp a 0 else binadeDown a 0)"

definition roundPos :: "real \<Rightarrow> real" where
  "roundPos a = (let q = 2 powi (binade a - 52) in of_int (roundEven (a / q)) * q)"

datatype double = Fin real | PosInf | NegInf | NotNum

definition binary64 :: "real \<Rightarrow> double" where
  "binary64 v =
     (let r = roundPos \<bar>v\<bar>
      in if r \<ge> 2 powi 1024 then (if v > 0 then PosInf else NegInf)
         else Fin (if v < 0 then - r else r))"

text \<open>\<^verbatim>\<open>a / b\<close> on doubles.\<close>

fun ddiv :: "double \<Rightarrow> double \<Rightarrow> double" where
  "ddiv NotNum b = NotNum"
| "ddiv a NotNum = NotNum"
| "ddiv (Fin a) (Fin b) =
     (if b = 0 then (if a > 0 then PosInf else if a < 0 then NegInf else NotNum)
      else binary64 (a / b))"
| "ddiv (Fin a) b = Fin 0"
| "ddiv PosInf (Fin b) = (if b < 0 then NegInf else PosInf)"
| "ddiv NegInf (Fin b) = (if b < 0 then PosInf else NegInf)"
| "ddiv a b = NotNum"

text \<open>\<^verbatim>\<open>a <= b\<close> on doubles.\<close>

fun doubleLe :: "double \<Rightarrow> double \<Rightarrow> bool" where
  "doubleLe NotNum b = False"
| "doubleLe a NotNum = False"
| "doubleLe NegInf b = True"
| "doubleLe a PosInf = True"
| "doubleLe PosInf b = False"
| "doubleLe a NegInf = False"
| "doubleLe (Fin a) (Fin b) = (a \<le> b)"

subsection \<open>Step length and the steps computation\<close>

text \<open>The constructor stores its argument; \<^verbatim>\<open>initializeAI\<close> only sets the model flag,
  which no function below reads.\<close>

definition constructor :: "real \<Rightarrow> service" where
  "constructor len = \<lparr>stepLength = len, lastAlerts = Map.empty, objectTracker = Map.empty\<rparr>"

definition updateStepLength :: "real \<Rightarrow> service \<Rightarrow> service" where
  "updateStepLength len s = s\<lparr>stepLength := len\<rparr>"

text \<open>\<^verbatim>\<open>Math.ceil(meters / (stepLength / 100))\<close> in double arithmetic. The arguments
  are the values of the doubles the code holds. The result is a step count or, after a
  division by zero or an overflow, \<^verbatim>\<open>Infinity\<close>, \<^verbatim>\<open>-Infinity\<close> or \<^verbatim>\<open>NaN\<close>.\<close>

datatype stepCount = Steps int | PosInfinity | NegInfinity | NotANumber

fun ceilD :: "double \<Rightarrow> stepCount" where
  "ceilD (Fin q) = Steps \<lceil>q\<rceil>"
| "ceilD PosInf = PosInfinity"
| "ceilD NegInf = NegInfinity"
| "ceilD NotNum = NotANumber"

definition stepLengthMeters :: "service \<Rightarrow> double" where
  "stepLengthMeters s = ddiv (Fin (stepLength s)) (Fin 100)"

definition metersToSteps :: "service \<Rightarrow> real \<Rightarrow> stepCount" where
  "metersToSteps s meters = ceilD (ddiv (Fin meters) (stepLengthMeters s))"

subsection \<open>Stage filters and the object tracker\<close>

definition filterCenterFOV :: "Detection list \<Rightarrow> Detection list" where
  "filterCenterFOV detections =
     filter (\<lambda>d. let centerX = 0.5; distanceFromCenter = \<bar>x d - centerX\<bar>
                  in distanceFromCenter \<le> CENTER_FOV_THRESHOLD) detections"

text \<open>The template \<^verbatim>\<open>`${detection.label}_${Math.round(detection.x * 10)}`\<close>;
  \<^verbatim>\<open>Math.round\<close> is \<open>\<lfloor>v + 1/2\<rfloor>\<close>, which is \<^const>\<open>round\<close>.\<close>

definition trackingKey :: "Detection \<Rightarrow> string" where
  "trackingKey d = label d @ ''_'' @ showInt (round (x d * 10))"

text \<open>The body of the \<^verbatim>\<open>forEach\<close> of \<^verbatim>\<open>updateObjectTracking\<close>. The detection
  object itself is pushed to the history and then mutated, so the annotated detection
  is both the last entry of the history and the element of the caller's list. With
  fewer than two entries nothing is assigned.\<close>

definition trackDetection ::
  "(string \<Rightarrow> Detection list option) \<Rightarrow> Detection
     \<Rightarrow> (string \<Rightarrow> Detection list option) \<times> Detection" where
  "trackDetection tracker d =
     (let key = trackingKey d;
          stored = (case tracker key of None \<Rightarrow> [] | Some h \<Rightarrow> h);
          pushed = stored @ [d];
          history = (if length pushed > TRACKING_HISTORY_SIZE then tl pushed else pushed)
      in if length history \<ge> 2 then
           (let prev = history ! (length history - 2);
                curr = history ! (length history - 1);
                movement = sqrt ((x curr - x prev)\<^sup>2 + (y curr - y prev)\<^sup>2);
                d' = d\<lparr>isMoving := Some (movement > MOVEMENT_THRESHOLD),
                       velocity := Some (jsdiv movement
                          (real_of_int (timestamp curr - timestamp prev) / 1000))\<rparr>
            in (tracker(key \<mapsto> butlast history @ [d']), d'))
         else (tracker(key \<mapsto> history), d))"

fun trackAll ::
  "(string \<Rightarrow> Detection list option) \<Rightarrow> Detection list
     \<Rightarrow> (string \<Rightarrow> Detection list option) \<times> Detection list" where
  "trackAll tracker [] = (tracker, [])"
| "trackAll tracker (d # ds) =
     (let (tracker1, d') = trackDetection tracker d;
          (tracker2, ds') = trackAll tracker1 ds
      in (tracker2, d' # ds'))"

text \<open>Deleting the entry under the cursor while iterating a \<^verbatim>\<open>Map\<close> is
  well-defined, so both loops are pointwise.\<close>

definition cleanOldTrackingData :: "int \<Rightarrow> service \<Rightarrow> service" where
  "cleanOldTrackingData now s =
     (let maxAge = 10000
      in s\<lparr>objectTracker :=
              (\<lambda>key. case objectTracker s key of
                        None \<Rightarrow> None
                      | Some history \<Rightarrow>
                          (let filteredHistory = filter (\<lambda>d. now - timestamp d < maxAge) history
                           in if length filteredHistory = 0 then None else Some filteredHistory)),
            lastAlerts :=
              (\<lambda>key. case lastAlerts s key of
                        None \<Rightarrow> None
                      | Some time \<Rightarrow> if now - time > 30000 then None else Some time)\<rparr>)"

definition updateObjectTracking :: "int \<Rightarrow> service \<Rightarrow> Detection list \<Rightarrow> service \<times> Detection list" where
  "updateObjectTracking now s detections =
     (let (tracker, annotated) = trackAll (objectTracker s) detections
      in (cleanOldTrackingData now (s\<lparr>objectTracker := tracker\<rparr>), annotated))"

definition keepByMovementAndProximity :: "Detection \<Rightarrow> bool" where
  "keepByMovementAndProximity d =
     (if steps d \<le> 2 then True
      else if truthy (isMoving d) \<and> steps d \<le> 6 then True
      else if label d \<in> set CRITICAL_OBJECTS \<and> steps d \<le> 4 then True
      else if confidence d > 0.8 \<and> steps d \<le> 5 then True
      else False)"

definition filterByMovementAndProximity :: "Detection list \<Rightarrow> Detection list" where
  "filterByMovementAndProximity detections = filter keepByMovementAndProximity detections"

definition keepTemporal :: "int \<Rightarrow> service \<Rightarrow> Detection \<Rightarrow> bool" where
  "keepTemporal now s d =
     (let objectType = label d;
          lastAlertTime = (case lastAlerts s objectType of None \<Rightarrow> 0 | Some t \<Rightarrow> t);
          timeSinceLastAlert = now - lastAlertTime
      in if steps d \<le> 1 then True
         else if timeSinceLastAlert < ALERT_COOLDOWN_MS then
           (case objectTracker s (trackingKey d) of
              Some history \<Rightarrow>
                if length history \<ge> 2
                then \<bar>x (history ! 0) - x (history ! (length history - 1))\<bar> > POSITION_CHANGE_THRESHOLD
                else False
            | None \<Rightarrow> False)
         else True)"

definition applyTemporalFiltering :: "int \<Rightarrow> service \<Rightarrow> Detection list \<Rightarrow> Detection list" where
  "applyTemporalFiltering now s detections = filter (keepTemporal now s) detections"

subsection \<open>Clusterer\<close>

definition nearby :: "Detection \<Rightarrow> Detection \<Rightarrow> bool" where
  "nearby d other =
     (let stepDiff = \<bar>real_of_int (steps d - steps other)\<bar>;
          positionDiff = \<bar>x d - x other\<bar>
      in stepDiff \<le> CLUSTER_DISTANCE_THRESHOLD \<and> positionDiff \<le> 0.2)"

text \<open>The inner loop: the cluster under construction and the set of processed ids.\<close>

fun absorb ::
  "Detection \<Rightarrow> Detection list \<Rightarrow> Detection list \<times> string set \<Rightarrow> Detection list \<times> string set" where
  "absorb d [] (cluster, processed) = (cluster, processed)"
| "absorb d (other # rest) (cluster, processed) =
     (if det_id other \<in> processed then absorb d rest (cluster, processed)
      else if nearby d other
        then absorb d rest (cluster @ [other], insert (det_id other) processed)
        else absorb d rest (cluster, processed))"

text \<open>The outer loop over the remaining detections; \<open>all\<close> is the whole input, which the
  inner loop scans from its start.\<close>

fun buildClusters :: "Detection list \<Rightarrow> Detection list \<Rightarrow> string set \<Rightarrow> Detection list list" where
  "buildClusters all [] processed = []"
| "buildClusters all (d # rest) processed =
     (if det_id d \<in> processed then buildClusters all rest processed
      else (let (cluster, processed') = absorb d all ([d], insert (det_id d) processed)
            in cluster # buildClusters all rest processed'))"

definition generateClusterLabel :: "Detection list \<Rightarrow> string" where
  "generateClusterLabel cluster =
     (if length cluster = 2 then label (cluster ! 0) @ '' and '' @ label (cluster ! 1)
      else (let criticalCount = length (filter (\<lambda>d. label d \<in> set CRITICAL_OBJECTS) cluster)
            in if criticalCount > 0
               then showNat criticalCount @ '' critical object''
                    @ (if criticalCount > 1 then ''s'' else [])
                    @ '' and '' @ showNat (length cluster - criticalCount) @ '' other''
                    @ (if length cluster - criticalCount > 1 then ''s'' else [])
               else showNat (length cluster) @ '' objects''))"

text \<open>\<^verbatim>\<open>cluster.reduce((prev, curr) => curr.steps < prev.steps ? curr : prev)\<close> starts
  from the first member.\<close>

definition closestOf :: "Detection list \<Rightarrow> Detection" where
  "closestOf cluster =
     foldl (\<lambda>prev curr. if steps curr < steps prev then curr else prev) (hd cluster) (tl cluster)"

text \<open>The \<^verbatim>\<open>map\<close> over the clusters; every cluster holds at least its seed.\<close>

definition representative :: "int \<Rightarrow> Detection list \<Rightarrow> Detection" where
  "representative now cluster =
     (if length cluster = 1 then cluster ! 0
      else (let closest = closestOf cluster;
                hasMoving = list_ex (\<lambda>d. truthy (isMoving d)) cluster
            in closest\<lparr>det_id := ''cluster_'' @ showNat (length cluster) @ ''_'' @ showInt now,
                       label := generateClusterLabel cluster,
                       confidence := maxList (map confidence cluster),
                       isMoving := Some hasMoving,
                       velocity := Some (if hasMoving
                                         then jsmaxList (map (\<lambda>d. orZero (velocity d)) cluster)
                                         else Num 0)\<rparr>))"

definition clusterNearbyObjects :: "int \<Rightarrow> Detection list \<Rightarrow> Detection list" where
  "clusterNearbyObjects now detections =
     (if length detections \<le> 1 then detections
      else map (representative now) (buildClusters detections detections {}))"

subsection \<open>Priority scorer and alert synthesizer\<close>

text \<open>\<^verbatim>\<open>detection.velocity && detection.velocity > c\<close>.\<close>

definition velocityAbove :: "jsnum option \<Rightarrow> real \<Rightarrow> bool" where
  "velocityAbove v c = (case v of None \<Rightarrow> False | Some n \<Rightarrow> truthyNum v \<and> jsgt n c)"

definition calculatePriority :: "Detection \<Rightarrow> real" where
  "calculatePriority d =
     (let priority0 = (if steps d \<le> 1 then 50
                       else if steps d \<le> 2 then 30
                       else if steps d \<le> 4 then 15
                       else max 0 (10 - real_of_int (steps d)));
          centerDistance = \<bar>x d - 0.5\<bar>;
          priority1 = priority0 + (1 - centerDistance) * 10;
          priority2 = priority1 + (if label d \<in> set CRITICAL_OBJECTS then 20
                                   else if label d \<in> set WARNING_OBJECTS then 10
                                   else if label d \<in> set INFO_OBJECTS then 5
                                   else 0);
          priority3 = priority2 + (if truthy (isMoving d)
                                   then 15 + (if velocityAbove (velocity d) 1 then 10 else 0)
                                   else 0)
      in priority3 + confidence d * 8)"

definition determineAlertType :: "Detection \<Rightarrow> AlertType" where
  "determineAlertType d =
     (if steps d \<le> 1 \<or> (truthy (isMoving d) \<and> steps d \<le> 2) then urgent
      else if steps d \<le> 3 \<or> label d \<in> set CRITICAL_OBJECTS then warning
      else info)"

definition generateContextualMessage :: "Detection \<Rightarrow> string" where
  "generateContextualMessage d =
     (let message0 = (if steps d = 1 then ''Stop! ''
                      else if steps d = 2 \<and> truthy (isMoving d) then ''Caution! ''
                      else []);
          message1 = (if includesStr (label d) ''multiple'' \<or> includesStr (label d) ''objects''
                      then message0 @ label d @ '' ahead in '' @ showInt (steps d) @ '' ''
                           @ (if steps d = 1 then ''step'' else ''steps'')
                      else message0 @ label d @ '' ahead in '' @ showInt (steps d) @ '' ''
                           @ (if steps d = 1 then ''step'' else ''steps''));
          message2 = (if truthy (isMoving d)
                      then (if velocityAbove (velocity d) 1.5
                            then message1 @ '', moving fast''
                            else message1 @ '', moving'')
                      else message1)
      in if x d < 0.3 then message2 @ '' to your left''
         else if x d > 0.7 then message2 @ '' to your right''
         else message2)"

text \<open>\<open>platformOS\<close> is \<^verbatim>\<open>Platform.OS\<close> of react-native.\<close>

definition createSmartAlert :: "int \<Rightarrow> string \<Rightarrow> Detection \<Rightarrow> ProcessedAlert" where
  "createSmartAlert now platformOS d =
     \<lparr>detection = d,
      priority = calculatePriority d,
      shouldAnnounce = (steps d \<le> 8),
      shouldVibrate = (steps d \<le> 2 \<and> platformOS \<noteq> ''web''),
      message = generateContextualMessage d,
      suppressUntil = (if steps d > 2 then Some (now + ALERT_COOLDOWN_MS) else None),
      alertType = determineAlertType d\<rparr>"

text \<open>\<^verbatim>\<open>sort((a, b) => b.priority - a.priority)\<close> is a stable sort by descending
  priority; \<^const>\<open>sort_key\<close> is the stable insertion sort.\<close>

definition generateSmartAlerts ::
  "int \<Rightarrow> string \<Rightarrow> service \<Rightarrow> Detection list \<Rightarrow> ProcessedAlert list \<times> service" where
  "generateSmartAlerts now platformOS s detections =
     (if length detections = 0 then ([], s)
      else (let prioritized =
                  sort_key (\<lambda>p. - snd p) (map (\<lambda>d. (d, calculatePriority d)) detections)
            in case prioritized of
                 [] \<Rightarrow> ([], s)
               | topDetection # _ \<Rightarrow>
                   ([createSmartAlert now platformOS (fst topDetection)],
                    s\<lparr>lastAlerts := (lastAlerts s)(label (fst topDetection) \<mapsto> now)\<rparr>)))"

subsection \<open>One tick\<close>

definition applyDetectionPipeline ::
  "int \<Rightarrow> service \<Rightarrow> Detection list \<Rightarrow> service \<times> Detection list" where
  "applyDetectionPipeline now s detections =
     (let filtered1 = filter (\<lambda>d. confidence d \<ge> MIN_CONFIDENCE) detections;
          filtered2 = filterCenterFOV filtered1;
          (s', filtered3) = updateObjectTracking now s filtered2;
          filtered4 = filterByMovementAndProximity filtered3;
          filtered5 = clusterNearbyObjects now filtered4;
          filtered6 = applyTemporalFiltering now s' filtered5
      in (s', filtered6))"

text \<open>\<open>rawDetections\<close> is what the detector (here the random simulation
  \<^verbatim>\<open>generateRealisticDetections\<close>) returns for the tick. No stage of the model throws,
  so the \<^verbatim>\<open>catch\<close> branch, which returns the empty list, is not reached.\<close>

definition processDetections ::
  "int \<Rightarrow> string \<Rightarrow> service \<Rightarrow> Detection list \<Rightarrow> ProcessedAlert list \<times> service" where
  "processDetections now platformOS s rawDetections =
     (let (s', filteredDetections) = applyDetectionPipeline now s rawDetections
      in generateSmartAlerts now platformOS s' filteredDetections)"

subsection \<open>The first-generation service and the settings screen\<close>

text \<open>\<^verbatim>\<open>DetectionService.shouldSuppressAlert\<close> with its own constants (cooldown 3000 ms,
  position change 0.1) and its map \<^verbatim>\<open>lastPositions\<close> from detection ids.\<close>

record Position =
  pos_x :: real
  pos_y :: real
  pos_time :: int

definition shouldSuppressAlert ::
  "(string \<Rightarrow> Position option) \<Rightarrow> Detection \<Rightarrow> int \<Rightarrow> bool" where
  "shouldSuppressAlert lastPositions d timeSinceLastAlert =
     (if steps d \<le> 1 then False
      else if timeSinceLastAlert < 3000 then True
      else (case lastPositions (det_id d) of
              Some lastPosition \<Rightarrow>
                (let positionChange =
                       sqrt ((x d - pos_x lastPosition)\<^sup>2 + (y d - pos_y lastPosition)\<^sup>2)
                 in if positionChange < 0.1 then True else False)
            | None \<Rightarrow> False))"

text \<open>\<^verbatim>\<open>handleSaveStepLength\<close> of the settings screen. \<open>parsed\<close> is the result of
  \<^verbatim>\<open>parseInt(tempStepLength, 10)\<close>, \<open>None\<close> for \<^verbatim>\<open>NaN\<close>; the screens pass the stored
  setting on to \<^verbatim>\<open>updateStepLength\<close>.\<close>

record Settings =
  stepLengthSetting :: real

definition handleSaveStepLength :: "int option \<Rightarrow> Settings \<Rightarrow> Settings" where
  "handleSaveStepLength parsed settings =
     (case parsed of
        None \<Rightarrow> settings
      | Some newLength \<Rightarrow>
          if newLength \<ge> 40 \<and> newLength \<le> 100
          then settings\<lparr>stepLengthSetting := real_of_int newLength\<rparr>
          else settings)"

subsection \<open>Comparing step counts, and example data\<close>

text \<open>\<^verbatim>\<open>a <= b\<close> on the results of \<open>metersToSteps\<close>.\<close>

fun stepsLe :: "stepCount \<Rightarrow> stepCount \<Rightarrow> bool" where
  "stepsLe NotANumber b = False"
| "stepsLe a NotANumber = False"
| "stepsLe NegInfinity b = True"
| "stepsLe a PosInfinity = True"
| "stepsLe PosInfinity b = False"
| "stepsLe a NegInfinity = False"
| "stepsLe (Steps a) (Steps b) = (a \<le> b)"

definition exampleChair :: Detection where
  "exampleChair =
     \<lparr>det_id = ''d0'', label = ''chair'', confidence = 0.9, distance = 1.95, steps = 3,
      x = 0.5, y = 0.5, width = 0.2, height = 0.3, timestamp = 1000,
      isMoving = None, velocity = None,
      boundingBox = \<lparr>box_x = 0.45, box_y = 0.425, box_width = 0.2, box_height = 0.3\<rparr>\<rparr>"

definition closeChair :: Detection where
  "closeChair = exampleChair\<lparr>det_id := ''d3'', steps := 1\<rparr>"

definition exampleDoor :: Detection where
  "exampleDoor = exampleChair\<lparr>det_id := ''d1'', label := ''door'', x := 0.35\<rparr>"

definition exampleWall :: Detection where
  "exampleWall = exampleChair\<lparr>det_id := ''d2'', label := ''wall'', x := 0.65\<rparr>"

definition movingDoor :: Detection where
  "movingDoor = exampleChair\<lparr>label := ''door'', isMoving := Some True, velocity := Some (Num 1.2)\<rparr>"

text \<open>A service that alerted for a chair at time 1000.\<close>

definition cooledService :: service where
  "cooledService = (constructor 65)\<lparr>lastAlerts := [''chair'' \<mapsto> 1000]\<rparr>"

section \<open>Properties\<close>

lemmas examples =
  exampleChair_def closeChair_def exampleDoor_def exampleWall_def movingDoor_def
  cooledService_def constructor_def

lemmas showDigits = showInt_def showNat.simps digit_def

subsection \<open>Temporal cooldown filter\<close>

text \<open>
  C1. For every list of detections and every cooldown state, every detection with
  \<open>steps \<le> 1\<close> in the input of \<open>applyTemporalFiltering\<close> appears in its output: the
  detections at most one step away pass the filter unchanged, in their order and number,
  whatever the table \<open>lastAlerts\<close> holds. The first-generation \<open>shouldSuppressAlert\<close>
  never suppresses such a detection either.
\<close>

theorem temporal_filter_keeps_close:
  assumes "d \<in> set detections" and "steps d \<le> 1"
  shows "d \<in> set (applyTemporalFiltering now s detections)
       \<and> filter (\<lambda>c. steps c \<le> 1) (applyTemporalFiltering now s detections)
           = filter (\<lambda>c. steps c \<le> 1) detections
       \<and> \<not> shouldSuppressAlert lastPositions d timeSinceLastAlert"
proof -
  have "d \<in> set (applyTemporalFiltering now s detections)"
    using assms by (simp add: applyTemporalFiltering_def keepTemporal_def Let_def)
  moreover have "filter (\<lambda>c. steps c \<le> 1) (applyTemporalFiltering now s detections)
      = filter (\<lambda>c. steps c \<le> 1) detections"
    unfolding applyTemporalFiltering_def filter_filter
    by (rule filter_cong) (auto simp: keepTemporal_def Let_def)
  moreover have "\<not> shouldSuppressAlert lastPositions d timeSinceLastAlert"
    using assms(2) by (simp add: shouldSuppressAlert_def)
  ultimately show ?thesis by blast
qed

text \<open>At time 1500 the chair cooldown of \<open>cooledService\<close> is running: the chair three
  steps away is dropped, the one a step away is kept.\<close>

theorem temporal_filter_keeps_close_witness:
  "closeChair \<in> set [exampleChair, closeChair] \<and> steps closeChair \<le> 1
   \<and> closeChair \<in> set (applyTemporalFiltering 1500 cooledService [exampleChair, closeChair])
   \<and> applyTemporalFiltering 1500 cooledService [exampleChair, closeChair] = [closeChair]"
proof -
  have h1: "closeChair \<in> set [exampleChair, closeChair]" by simp
  have h2: "steps closeChair \<le> 1" by (simp add: examples)
  have "applyTemporalFiltering 1500 cooledService [exampleChair, closeChair] = [closeChair]"
    by (simp add: applyTemporalFiltering_def keepTemporal_def ALERT_COOLDOWN_MS_def Let_def examples)
  then show ?thesis
    using h1 h2 temporal_filter_keeps_close [OF h1 h2, of 1500 cooledService] by blast
qed

subsection \<open>At most one alert\<close>

text \<open>
  C2. For every input list of detections, of any size, one tick of the pipeline emits at
  most one alert: the list returned by \<open>generateSmartAlerts\<close>, and so the one returned
  by \<open>processDetections\<close>, has length 0 or 1.
\<close>

theorem at_most_one_alert:
  "length (fst (generateSmartAlerts now platformOS s detections)) \<le> 1
   \<and> length (fst (processDetections now platformOS s rawDetections)) \<le> 1"
  by (auto simp: generateSmartAlerts_def processDetections_def Let_def
      split: list.splits prod.splits)

subsection \<open>Proximity and movement filter\<close>

text \<open>
  C3. The proximity/movement filter keeps a detection if and only if at least one of four
  conditions holds: \<open>steps \<le> 2\<close>; or moving and \<open>steps \<le> 6\<close>; or the label is a critical
  one and \<open>steps \<le> 4\<close>; or \<open>confidence > 0.8\<close> and \<open>steps \<le> 5\<close>. A detection that
  satisfies none of them is dropped.
\<close>

theorem proximity_filter_whitelist:
  "filterByMovementAndProximity detections =
     filter (\<lambda>d. steps d \<le> 2
                \<or> (isMoving d = Some True \<and> steps d \<le> 6)
                \<or> (label d \<in> set [''person'', ''car'', ''bicycle'', ''motorcycle'', ''truck'']
                     \<and> steps d \<le> 4)
                \<or> (confidence d > 0.8 \<and> steps d \<le> 5)) detections"
  unfolding filterByMovementAndProximity_def
  by (rule filter_cong)
    (auto simp: keepByMovementAndProximity_def truthy_def CRITICAL_OBJECTS_def)

subsection \<open>Rounding to binary64\<close>

lemma roundEven_mono: "v \<le> w \<Longrightarrow> roundEven v \<le> roundEven w"
proof -
  assume vw: "v \<le> w"
  have fl: "\<lfloor>v\<rfloor> \<le> \<lfloor>w\<rfloor>" using vw by (rule floor_mono)
  show ?thesis
  proof (cases "\<lfloor>v\<rfloor> = \<lfloor>w\<rfloor>")
    case True
    then show ?thesis using vw by (auto simp: roundEven_def Let_def)
  next
    case False
    then have "\<lfloor>v\<rfloor> + 1 \<le> \<lfloor>w\<rfloor>" using fl by linarith
    moreover have "roundEven v \<le> \<lfloor>v\<rfloor> + 1" by (simp add: roundEven_def Let_def)
    moreover have "\<lfloor>w\<rfloor> \<le> roundEven w" by (simp add: roundEven_def Let_def)
    ultimately show ?thesis by linarith
  qed
qed

lemma roundEven_of_int: "roundEven (of_int k) = k"
  by (simp add: roundEven_def)

lemma roundEven_near: "\<bar>v - of_int n\<bar> < 1/2 \<Longrightarrow> roundEven v = n"
proof -
  assume a: "\<bar>v - of_int n\<bar> < 1/2"
  show ?thesis
  proof (cases "of_int n \<le> v")
    case True
    then have "\<lfloor>v\<rfloor> = n" using a by (intro floor_unique) auto
    then show ?thesis using a True by (simp add: roundEven_def Let_def)
  next
    case False
    then have "\<lfloor>v\<rfloor> = n - 1" using a by (intro floor_unique) auto
    then show ?thesis using a False by (simp add: roundEven_def Let_def)
  qed
qed

lemma binadeUp_bounds:
  "e0 \<le> 1023 \<Longrightarrow> 2 powi e0 \<le> a \<Longrightarrow>
     e0 \<le> binadeUp a e0 \<and> binadeUp a e0 \<le> 1023 \<and> 2 powi (binadeUp a e0) \<le> a
     \<and> (binadeUp a e0 < 1023 \<longrightarrow> a < 2 powi (binadeUp a e0 + 1))"
proof (induction a e0 rule: binadeUp.induct)
  case (1 a e)
  show ?case
  proof (cases "e < 1023 \<and> 2 powi (e + 1) \<le> a")
    case True
    then have eq: "binadeUp a e = binadeUp a (e + 1)" by (subst binadeUp.simps) simp
    from True have "e + 1 \<le> 1023" by simp
    from "1.IH" [OF True this] True show ?thesis unfolding eq by auto
  next
    case False
    then have eq: "binadeUp a e = e" by (subst binadeUp.simps) auto
    show ?thesis unfolding eq using False "1.prems" by auto
  qed
qed

lemma binadeDown_bounds:
  "- 1022 \<le> e0 \<Longrightarrow> a < 2 powi (e0 + 1) \<Longrightarrow>
     - 1022 \<le> binadeDown a e0 \<and> binadeDown a e0 \<le> e0 \<and> a < 2 powi (binadeDown a e0 + 1)
     \<and> (- 1022 < binadeDown a e0 \<longrightarrow> 2 powi (binadeDown a e0) \<le> a)"
proof (induction a e0 rule: binadeDown.induct)
  case (1 a e)
  show ?case
  proof (cases "- 1022 < e \<and> a < 2 powi e")
    case True
    then have eq: "binadeDown a e = binadeDown a (e - 1)" by (subst binadeDown.simps) simp
    from True have "- 1022 \<le> e - 1" "a < 2 powi (e - 1 + 1)" by simp_all
    from "1.IH" [OF True this] show ?thesis unfolding eq by auto
  next
    case False
    then have eq: "binadeDown a e = e" by (subst binadeDown.simps) auto
    show ?thesis unfolding eq using False "1.prems" by auto
  qed
qed

lemma binade_bounds:
  "- 1022 \<le> binade a \<and> binade a \<le> 1023
   \<and> (- 1022 < binade a \<longrightarrow> 2 powi (binade a) \<le> a)
   \<and> (binade a < 1023 \<longrightarrow> a < 2 powi (binade a + 1))"
proof (cases "1 \<le> a")
  case True
  then have "2 powi 0 \<le> a" by simp
  from binadeUp_bounds [OF _ this] True show ?thesis by (simp add: binade_def)
next
  case False
  then have "a < 2 powi (0 + 1)" by simp
  from binadeDown_bounds [OF _ this] False show ?thesis by (auto simp: binade_def)
qed

lemma pow2_mono: "e \<le> e' \<Longrightarrow> (2::real) powi e \<le> 2 powi e'"
  by (rule power_int_increasing) simp_all

lemma binade_mono: "a \<le> b \<Longrightarrow> binade a \<le> binade b"
proof (rule ccontr)
  assume ab: "a \<le> b" and "\<not> binade a \<le> binade b"
  then have lt: "binade b < binade a" by simp
  have "binade b < 1023" using lt binade_bounds [of a] by linarith
  then have 1: "b < 2 powi (binade b + 1)" using binade_bounds [of b] by simp
  have "- 1022 < binade a" using lt binade_bounds [of b] by linarith
  then have 2: "2 powi (binade a) \<le> a" using binade_bounds [of a] by simp
  have "(2::real) powi (binade b + 1) \<le> 2 powi (binade a)" using lt by (intro pow2_mono) simp
  with 1 2 ab show False by linarith
qed

lemma binade_unique:
  assumes "- 1022 \<le> e" "e \<le> 1023" "2 powi e \<le> a" "a < 2 powi (e + 1)"
  shows "binade a = e"
proof (rule ccontr)
  assume ne: "binade a \<noteq> e"
  show False
  proof (cases "binade a < e")
    case True
    then have "a < 2 powi (binade a + 1)" using binade_bounds [of a] assms(2) by simp
    moreover have "(2::real) powi (binade a + 1) \<le> 2 powi e" using True by (intro pow2_mono) simp
    ultimately show False using assms(3) by linarith
  next
    case False
    then have gt: "e < binade a" using ne by simp
    then have "2 powi (binade a) \<le> a" using binade_bounds [of a] assms(1) by simp
    moreover have "(2::real) powi (e + 1) \<le> 2 powi (binade a)" using gt by (intro pow2_mono) simp
    ultimately show False using assms(4) by linarith
  qed
qed

lemma quantum_pos: "0 < (2::real) powi e"
  by (rule zero_less_power_int) simp

lemma pow2_split: "(2::real) powi e = 2 powi k * 2 powi (e - k)"
  using power_int_add [of "2::real" k "e - k"] by simp

lemma roundPos_upper:
  assumes "binade a < 1023"
  shows "roundPos a \<le> 2 powi (binade a + 1)"
proof -
  let ?q = "(2::real) powi (binade a - 52)"
  have q: "0 < ?q" by (rule quantum_pos)
  have s: "(2::real) powi (binade a + 1) = 2 powi 53 * ?q"
    using pow2_split [of "binade a + 1" 53] by simp
  have "a < 2 powi (binade a + 1)" using assms binade_bounds [of a] by simp
  then have "a / ?q \<le> of_int (2 ^ 53)" using q s by (simp add: field_simps)
  then have "roundEven (a / ?q) \<le> 2 ^ 53"
    using roundEven_mono [of "a / ?q" "of_int (2 ^ 53)"] by (simp only: roundEven_of_int)
  then have "of_int (roundEven (a / ?q)) \<le> (2::real) powi 53"
    by (simp add: of_int_le_iff [symmetric] del: of_int_le_iff)
  then show ?thesis unfolding roundPos_def Let_def s using q by (simp add: mult_right_mono)
qed

lemma roundPos_lower:
  assumes "2 powi (binade a) \<le> a"
  shows "2 powi (binade a) \<le> roundPos a"
proof -
  let ?q = "(2::real) powi (binade a - 52)"
  have q: "0 < ?q" by (rule quantum_pos)
  have s: "(2::real) powi (binade a) = 2 powi 52 * ?q"
    using pow2_split [of "binade a" 52] by simp
  have "of_int (2 ^ 52) \<le> a / ?q" using assms q s by (simp add: field_simps)
  then have "2 ^ 52 \<le> roundEven (a / ?q)"
    using roundEven_mono [of "of_int (2 ^ 52)" "a / ?q"] by (simp only: roundEven_of_int)
  then have "(2::real) powi 52 \<le> of_int (roundEven (a / ?q))"
    by (simp add: of_int_le_iff [symmetric] del: of_int_le_iff)
  then show ?thesis unfolding roundPos_def Let_def s using q by (simp add: mult_right_mono)
qed

lemma roundPos_mono:
  assumes "a \<le> b"
  shows "roundPos a \<le> roundPos b"
proof (cases "binade a = binade b")
  case True
  let ?q = "(2::real) powi (binade b - 52)"
  have q: "0 < ?q" by (rule quantum_pos)
  have "a / ?q \<le> b / ?q" using assms q by (simp add: divide_right_mono)
  then have "roundEven (a / ?q) \<le> roundEven (b / ?q)" by (rule roundEven_mono)
  then show ?thesis using q True by (simp add: roundPos_def Let_def mult_right_mono)
next
  case False
  then have lt: "binade a < binade b" using binade_mono [OF assms] by simp
  have "binade a < 1023" using lt binade_bounds [of b] by linarith
  then have 1: "roundPos a \<le> 2 powi (binade a + 1)" by (rule roundPos_upper)
  have "- 1022 < binade b" using lt binade_bounds [of a] by linarith
  then have "2 powi (binade b) \<le> b" using binade_bounds [of b] by simp
  then have 2: "2 powi (binade b) \<le> roundPos b" by (rule roundPos_lower)
  have "(2::real) powi (binade a + 1) \<le> 2 powi (binade b)" using lt by (intro pow2_mono) simp
  with 1 2 show ?thesis by linarith
qed

lemma roundPos_zero: "roundPos 0 = 0"
  by (simp add: roundPos_def roundEven_def)

lemma roundPos_nonneg: "0 \<le> a \<Longrightarrow> 0 \<le> roundPos a"
  using roundPos_mono [of 0 a] by (simp add: roundPos_zero)


lemma roundPos_cert:
  assumes "- 1022 \<le> e" "e \<le> 1023" "2 powi e \<le> a" "a < 2 powi (e + 1)"
    and "\<bar>a / 2 powi (e - 52) - of_int n\<bar> < 1/2"
  shows "roundPos a = of_int n * 2 powi (e - 52)"
  using binade_unique [OF assms(1-4)] roundEven_near [OF assms(5)]
  by (simp add: roundPos_def)

lemma binary64_mono:
  assumes "v \<le> w"
  shows "doubleLe (binary64 v) (binary64 w)"
proof -
  have big: "(0::real) < 2 powi 1024" by (rule quantum_pos)
  consider "0 \<le> v" | "v < 0" "0 \<le> w" | "w < 0" using assms by linarith
  then show ?thesis
  proof cases
    case 1
    then have "roundPos \<bar>v\<bar> \<le> roundPos \<bar>w\<bar>" using assms by (intro roundPos_mono) simp
    moreover have "v = 0 \<Longrightarrow> roundPos \<bar>v\<bar> = 0" by (simp add: roundPos_zero)
    moreover have "w = 0 \<Longrightarrow> roundPos \<bar>w\<bar> = 0" by (simp add: roundPos_zero)
    ultimately show ?thesis using 1 assms big by (auto simp: binary64_def Let_def)
  next
    case 2
    have "0 \<le> roundPos \<bar>v\<bar>" "0 \<le> roundPos \<bar>w\<bar>" by (simp_all add: roundPos_nonneg)
    moreover have "w = 0 \<Longrightarrow> roundPos \<bar>w\<bar> = 0" by (simp add: roundPos_zero)
    ultimately show ?thesis using 2 big by (auto simp: binary64_def Let_def)
  next
    case 3
    then have "roundPos \<bar>w\<bar> \<le> roundPos \<bar>v\<bar>" using assms by (intro roundPos_mono) simp
    then show ?thesis using 3 assms by (auto simp: binary64_def Let_def)
  qed
qed

lemma binary64_zero: "binary64 0 = Fin 0"
  using quantum_pos [of 1024] by (simp add: binary64_def roundPos_zero)

lemma binary64_cert:
  assumes "- 1022 \<le> e" "e \<le> 1022" "2 powi e \<le> a" "a < 2 powi (e + 1)"
    and "\<bar>a / 2 powi (e - 52) - of_int n\<bar> < 1/2"
  shows "binary64 a = Fin (of_int n * 2 powi (e - 52))
       \<and> binary64 (- a) = Fin (- (of_int n * 2 powi (e - 52)))"
proof -
  have e: "e \<le> 1023" using assms(2) by simp
  have b: "binade a = e" using assms(1) e assms(3,4) by (rule binade_unique)
  have r: "roundPos a = of_int n * 2 powi (e - 52)"
    using assms(1) e assms(3-5) by (rule roundPos_cert)
  have pos: "0 < a" using assms(3) quantum_pos [of e] by linarith
  have "roundPos a \<le> 2 powi (binade a + 1)" using b assms(2) by (intro roundPos_upper) simp
  also have "\<dots> \<le> 2 powi 1023" using b assms(2) by (intro pow2_mono) simp
  also have "\<dots> < (2::real) powi 1024" by (intro power_int_strict_increasing) simp_all
  finally have "\<not> 2 powi 1024 \<le> roundPos a" by simp
  then show ?thesis using pos r by (simp add: binary64_def Let_def)
qed

lemma binary64_overflow:
  assumes "2 powi 1024 \<le> a"
  shows "binary64 a = PosInf"
proof -
  have pos: "0 < a" using assms quantum_pos [of 1024] by linarith
  have "\<not> binade a < 1023"
  proof
    assume lt: "binade a < 1023"
    then have "a < 2 powi (binade a + 1)" using binade_bounds [of a] by simp
    moreover have "(2::real) powi (binade a + 1) \<le> 2 powi 1024"
      using lt by (intro pow2_mono) simp
    ultimately show False using assms by linarith
  qed
  then have b: "binade a = 1023" using binade_bounds [of a] by linarith
  let ?q = "(2::real) powi (1023 - 52)"
  have q: "0 < ?q" by (rule quantum_pos)
  have s: "(2::real) powi 1024 = 2 powi 53 * ?q" using pow2_split [of 1024 53] by simp
  have "of_int (2 ^ 53) \<le> a / ?q" using assms q s by (simp add: field_simps)
  then have "2 ^ 53 \<le> roundEven (a / ?q)"
    using roundEven_mono [of "of_int (2 ^ 53)" "a / ?q"] by (simp only: roundEven_of_int)
  then have "(2::real) powi 53 \<le> of_int (roundEven (a / ?q))"
    by (simp add: of_int_le_iff [symmetric] del: of_int_le_iff)
  then have "2 powi 1024 \<le> roundPos a"
    unfolding roundPos_def Let_def b s using q by (simp add: mult_right_mono)
  then show ?thesis using pos by (simp add: binary64_def Let_def)
qed

lemma ceilD_mono: "doubleLe a b \<Longrightarrow> stepsLe (ceilD a) (ceilD b)"
  by (cases a; cases b) (simp_all add: ceiling_mono)

lemma stepLengthMeters_eq: "stepLengthMeters s = binary64 (stepLength s / 100)"
  by (simp add: stepLengthMeters_def)

lemma stepLengthMeters_mono:
  "stepLength s1 \<le> stepLength s2 \<Longrightarrow> doubleLe (stepLengthMeters s1) (stepLengthMeters s2)"
  unfolding stepLengthMeters_eq by (rule binary64_mono) (simp add: divide_right_mono)

lemma metersToSteps_finite:
  "stepLengthMeters s = Fin m \<Longrightarrow> m \<noteq> 0 \<Longrightarrow> metersToSteps s d = ceilD (binary64 (d / m))"
  by (simp add: metersToSteps_def)

lemma metersToSteps_infinite:
  "stepLengthMeters s = PosInf \<Longrightarrow> metersToSteps s d = Steps 0"
  by (simp add: metersToSteps_def)

text \<open>A positive step length gives a length in meters that is a positive double, or
  \<^verbatim>\<open>Infinity\<close> beyond the range of the doubles, unless the division by 100 underflows
  to zero.\<close>

lemma stepLengthMeters_cases:
  assumes "0 < stepLength s" and "stepLengthMeters s \<noteq> Fin 0"
  shows "(\<exists>m. stepLengthMeters s = Fin m \<and> 0 < m) \<or> stepLengthMeters s = PosInf"
proof -
  have "doubleLe (binary64 0) (binary64 (stepLength s / 100))"
    using assms(1) by (intro binary64_mono) simp
  then have "doubleLe (Fin 0) (stepLengthMeters s)"
    by (simp add: binary64_zero stepLengthMeters_eq)
  then show ?thesis using assms(2) by (cases "stepLengthMeters s") auto
qed

text \<open>The division by 100 does not underflow for any step length from \<open>2\<^sup>-\<^sup>1\<^sup>0\<^sup>1\<^sup>5\<close> cm
  up, so the settings range 40 to 100 is far inside.\<close>

lemma stepLengthMeters_nonzero:
  assumes "2 powi (- 1015) \<le> stepLength s"
  shows "stepLengthMeters s \<noteq> Fin 0"
proof -
  have "(2::real) powi (- 1022) * 2 powi 7 = 2 powi (- 1015)"
    using power_int_add [of "2::real" "- 1022" 7] by simp
  then have "(2::real) powi (- 1022) * 128 \<le> stepLength s" using assms by simp
  moreover have "0 < (2::real) powi (- 1022)" by (rule quantum_pos)
  ultimately have le: "2 powi (- 1022) \<le> stepLength s / 100" by (simp add: field_simps)
  have small: "binary64 (2 powi (- 1022)) = Fin (of_int (2 ^ 52) * 2 powi (- 1022 - 52))"
  proof -
    have "(2::real) powi (- 1022) = 2 powi 52 * 2 powi (- 1022 - 52)"
      by (rule pow2_split)
    then have "\<bar>2 powi (- 1022) / 2 powi (- 1022 - 52) - real_of_int (2 ^ 52)\<bar> < 1 / 2"
      using quantum_pos [of "- 1022 - 52"] by simp
    moreover have "(2::real) powi (- 1022) < 2 powi (- 1022 + 1)"
      by (intro power_int_strict_increasing) simp_all
    ultimately show ?thesis
      using binary64_cert [of "- 1022" "2 powi (- 1022)" "2 ^ 52"] by simp
  qed
  have "0 < real_of_int (2 ^ 52) * 2 powi (- 1022 - 52)"
    using quantum_pos [of "- 1022 - 52"] by simp
  moreover have "doubleLe (binary64 (2 powi (- 1022))) (stepLengthMeters s)"
    unfolding stepLengthMeters_eq using le by (rule binary64_mono)
  ultimately show ?thesis unfolding small by (cases "stepLengthMeters s") auto
qed

lemma stepLengthMeters_65: "stepLengthMeters (constructor 65) = Fin (5854679515581645 / 2 ^ 53)"
  using binary64_cert [of "- 1" "0.65" 5854679515581645]
  by (simp add: stepLengthMeters_eq constructor_def power_int_minus)

lemma stepLengthMeters_70: "stepLengthMeters (constructor 70) = Fin (6305039478318694 / 2 ^ 53)"
  using binary64_cert [of "- 1" "0.7" 6305039478318694]
  by (simp add: stepLengthMeters_eq constructor_def power_int_minus)

text \<open>The double nearest to 2.1, and its quotient by the double nearest to 0.7, which
  rounds to the double just above 3.\<close>

lemma double_2_1: "binary64 2.1 = Fin (4728779608739021 / 2 ^ 51)"
  using binary64_cert [of 1 "2.1" 4728779608739021] by (simp add: power_int_minus)

lemma quotient_2_1_by_0_7:
  "binary64 ((4728779608739021 / 2 ^ 51) / (6305039478318694 / 2 ^ 53))
     = Fin (6755399441055745 / 2 ^ 51)"
  using binary64_cert [of 1 "(4728779608739021 / 2 ^ 51) / (6305039478318694 / 2 ^ 53)"
      6755399441055745]
  by (simp add: power_int_minus)

lemma steps_2_1_at_70: "metersToSteps (constructor 70) (4728779608739021 / 2 ^ 51) = Steps 4"
proof -
  have "\<lceil>(6755399441055745::real) / 2 ^ 51\<rceil> = 4" by (intro ceiling_unique) simp_all
  then show ?thesis
    using metersToSteps_finite [OF stepLengthMeters_70, of "4728779608739021 / 2 ^ 51"]
      quotient_2_1_by_0_7
    by simp
qed

text \<open>A step length of 1 cm and a distance of \<open>10\<^sup>3\<^sup>0\<^sup>8\<close> m: the quotient overflows.\<close>

lemma steps_overflow: "metersToSteps (constructor 1) (10 ^ 308) = PosInfinity"
proof -
  have m: "stepLengthMeters (constructor 1) = Fin (5764607523034235 / 2 ^ 59)"
    using binary64_cert [of "- 7" "0.01" 5764607523034235]
    by (simp add: stepLengthMeters_eq constructor_def power_int_minus)
  have "(2::real) powi 1024 \<le> 10 ^ 308 / (5764607523034235 / 2 ^ 59)" by simp
  then have "binary64 (10 ^ 308 / (5764607523034235 / 2 ^ 59)) = PosInf"
    by (rule binary64_overflow)
  then show ?thesis using metersToSteps_finite [OF m, of "10 ^ 308"] by simp
qed

subsection \<open>Step length\<close>

text \<open>The claim C4 as stated fails: the constructor accepts the step length 0 and
  \<open>updateStepLength\<close> accepts \<open>-65\<close>, and \<open>metersToSteps\<close> then runs with them, giving
  \<^verbatim>\<open>Infinity\<close> and a negative step count.\<close>

theorem step_length_unchecked_counterexample:
  "stepLength (constructor 0) = 0
   \<and> metersToSteps (constructor 0) 1.3 = PosInfinity
   \<and> stepLength (updateStepLength (- 65) (constructor 65)) = - 65
   \<and> metersToSteps (updateStepLength (- 65) (constructor 65)) 1.3 = Steps (- 2)"
proof -
  have a: "metersToSteps (constructor 0) 1.3 = PosInfinity"
    by (simp add: metersToSteps_def stepLengthMeters_eq constructor_def binary64_zero)
  have m: "stepLengthMeters (updateStepLength (- 65) (constructor 65))
      = Fin (- (5854679515581645 / 2 ^ 53))"
    using binary64_cert [of "- 1" "0.65" 5854679515581645]
    by (simp add: stepLengthMeters_eq updateStepLength_def constructor_def power_int_minus)
  have "binary64 (- (1.3 / (5854679515581645 / 2 ^ 53))) = Fin (- 2)"
    using binary64_cert [of 0 "1.3 / (5854679515581645 / 2 ^ 53)" 9007199254740992]
    by (simp add: power_int_minus)
  then have b: "metersToSteps (updateStepLength (- 65) (constructor 65)) 1.3 = Steps (- 2)"
    using m by (simp add: metersToSteps_def)
  show ?thesis using a b by (simp add: constructor_def updateStepLength_def)
qed

text \<open>
  C4, amended. A non-positive step length is not rejected by the service: the constructor
  and \<open>updateStepLength\<close> store the length they are given, whatever it is, and change
  nothing else. The range check is made by the settings screen: \<open>handleSaveStepLength\<close>
  stores a parsed length only when it lies between 40 and 100 and keeps the old
  setting otherwise, so a positive setting stays positive.
\<close>

theorem step_length_stored_as_given:
  assumes "0 < stepLengthSetting settings"
  shows "stepLength (constructor len) = len
       \<and> updateStepLength len s = s\<lparr>stepLength := len\<rparr>
       \<and> stepLengthSetting (handleSaveStepLength parsed settings) =
           (case parsed of
              None \<Rightarrow> stepLengthSetting settings
            | Some n \<Rightarrow> if 40 \<le> n \<and> n \<le> 100 then real_of_int n else stepLengthSetting settings)
       \<and> 0 < stepLengthSetting (handleSaveStepLength parsed settings)"
  using assms
  by (simp add: constructor_def updateStepLength_def handleSaveStepLength_def
      split: option.splits)

theorem step_length_stored_as_given_witness:
  "0 < stepLengthSetting \<lparr>stepLengthSetting = 65\<rparr>
   \<and> stepLength (constructor (- 5)) = - 5
   \<and> stepLengthSetting (handleSaveStepLength (Some (- 5)) \<lparr>stepLengthSetting = 65\<rparr>) = 65
   \<and> stepLengthSetting (handleSaveStepLength (Some 70) \<lparr>stepLengthSetting = 65\<rparr>) = 70"
proof -
  have h: "0 < stepLengthSetting \<lparr>stepLengthSetting = 65\<rparr>" by simp
  show ?thesis
    using h step_length_stored_as_given [OF h, of "- 5" "constructor 65" "Some (- 5)"]
      step_length_stored_as_given [OF h, of "- 5" "constructor 65" "Some 70"]
    by simp
qed

text \<open>
  C8. \<open>metersToSteps\<close> computes \<open>ceil(distance / (stepLength / 100))\<close>, the two divisions
  being those of doubles. For a positive step length (whose length in meters has not
  underflowed to zero, which \<open>stepLengthMeters_nonzero\<close> excludes from \<open>2\<^sup>-\<^sup>1\<^sup>0\<^sup>1\<^sup>5\<close> cm
  up) it is monotone: for a fixed step length it is non-decreasing in the distance, and
  for a fixed distance, non-negative as the data model has it, it is non-increasing in
  the step length.
\<close>

theorem steps_monotone:
  assumes "0 < stepLength s1" and "stepLengthMeters s1 \<noteq> Fin 0"
    and "stepLength s1 \<le> stepLength s2" and "d1 \<le> d2" and "0 \<le> d"
  shows "metersToSteps s1 d1 = ceilD (ddiv (Fin d1) (ddiv (Fin (stepLength s1)) (Fin 100)))
       \<and> stepsLe (metersToSteps s1 d1) (metersToSteps s1 d2)
       \<and> stepsLe (metersToSteps s2 d) (metersToSteps s1 d)"
proof -
  have form: "metersToSteps s1 d1 = ceilD (ddiv (Fin d1) (ddiv (Fin (stepLength s1)) (Fin 100)))"
    by (simp only: metersToSteps_def stepLengthMeters_def)
  have le: "doubleLe (stepLengthMeters s1) (stepLengthMeters s2)"
    using assms(3) by (rule stepLengthMeters_mono)
  from stepLengthMeters_cases [OF assms(1,2)]
  have "stepsLe (metersToSteps s1 d1) (metersToSteps s1 d2)
      \<and> stepsLe (metersToSteps s2 d) (metersToSteps s1 d)"
  proof
    assume "\<exists>m. stepLengthMeters s1 = Fin m \<and> 0 < m"
    then obtain m1 where m1: "stepLengthMeters s1 = Fin m1" and pos1: "0 < m1" by blast
    have at1: "metersToSteps s1 c = ceilD (binary64 (c / m1))" for c
      using m1 pos1 by (intro metersToSteps_finite) simp_all
    have "d1 / m1 \<le> d2 / m1" using assms(4) pos1 by (simp add: divide_right_mono)
    then have dist: "stepsLe (metersToSteps s1 d1) (metersToSteps s1 d2)"
      unfolding at1 by (intro ceilD_mono binary64_mono)
    have len: "stepsLe (metersToSteps s2 d) (metersToSteps s1 d)"
    proof (cases "stepLengthMeters s2")
      case (Fin m2)
      then have m12: "m1 \<le> m2" using le m1 by simp
      then have "d / m2 \<le> d / m1"
        using assms(5) pos1 by (intro divide_left_mono) simp_all
      moreover have "metersToSteps s2 d = ceilD (binary64 (d / m2))"
        using Fin m12 pos1 by (intro metersToSteps_finite) simp_all
      ultimately show ?thesis unfolding at1 by (simp add: ceilD_mono binary64_mono)
    next
      case PosInf
      have "0 \<le> d / m1" using assms(5) pos1 by simp
      then have "doubleLe (binary64 0) (binary64 (d / m1))" by (rule binary64_mono)
      then have "stepsLe (ceilD (Fin 0)) (ceilD (binary64 (d / m1)))"
        unfolding binary64_zero by (rule ceilD_mono)
      then show ?thesis unfolding at1 using PosInf by (simp add: metersToSteps_infinite)
    next
      case NegInf
      then show ?thesis using le m1 by simp
    next
      case NotNum
      then show ?thesis using le m1 by simp
    qed
    show ?thesis using dist len by blast
  next
    assume inf1: "stepLengthMeters s1 = PosInf"
    then have "stepLengthMeters s2 = PosInf" using le by (cases "stepLengthMeters s2") simp_all
    then show ?thesis using inf1 by (simp add: metersToSteps_infinite)
  qed
  then show ?thesis using form by blast
qed

text \<open>At 70 cm the double nearest to 2.1 m is 4 steps away: the quotient of the
  doubles is just above 3.\<close>

theorem steps_monotone_witness:
  "0 < stepLength (constructor 70) \<and> stepLengthMeters (constructor 70) \<noteq> Fin 0
   \<and> stepLength (constructor 70) \<le> stepLength (constructor 80)
   \<and> (4728779608739021 / 2 ^ 51 :: real) \<le> 3 \<and> (0::real) \<le> 4728779608739021 / 2 ^ 51
   \<and> metersToSteps (constructor 70) (4728779608739021 / 2 ^ 51) = Steps 4
   \<and> stepsLe (Steps 4) (metersToSteps (constructor 70) 3)
   \<and> stepsLe (metersToSteps (constructor 80) (4728779608739021 / 2 ^ 51)) (Steps 4)"
proof -
  have h1: "0 < stepLength (constructor 70)" by (simp add: constructor_def)
  have h2: "stepLengthMeters (constructor 70) \<noteq> Fin 0" by (simp add: stepLengthMeters_70)
  have h3: "stepLength (constructor 70) \<le> stepLength (constructor 80)"
    by (simp add: constructor_def)
  have h4: "(4728779608739021 / 2 ^ 51 :: real) \<le> 3" by simp
  have h5: "(0::real) \<le> 4728779608739021 / 2 ^ 51" by simp
  note t = steps_monotone [OF h1 h2 h3 h4 h5]
  have a: "stepsLe (Steps 4) (metersToSteps (constructor 70) 3)"
    using t [THEN conjunct2, THEN conjunct1] by (simp only: steps_2_1_at_70)
  have b: "stepsLe (metersToSteps (constructor 80) (4728779608739021 / 2 ^ 51)) (Steps 4)"
    using t [THEN conjunct2, THEN conjunct2] by (simp only: steps_2_1_at_70)
  show ?thesis using h1 h2 h3 h4 h5 steps_2_1_at_70 a b by blast
qed

subsection \<open>Alert synthesizer\<close>

text \<open>
  C9. For the detection with label "door", \<open>x = 0.2\<close>, \<open>steps = 3\<close>, moving, velocity
  2.0 (its other fields arbitrary) the synthesizer produces the message
  "door ahead in 3 steps, moving fast to your left" and the alert class warning, by the
  \<open>steps \<le> 3\<close> rule, "door" not being a critical label.
\<close>

theorem door_scenario:
  "message (createSmartAlert now platformOS
      (d\<lparr>label := ''door'', x := 0.2, steps := 3, isMoving := Some True,
         velocity := Some (Num 2.0)\<rparr>))
     = ''door ahead in 3 steps, moving fast to your left''
   \<and> alertType (createSmartAlert now platformOS
      (d\<lparr>label := ''door'', x := 0.2, steps := 3, isMoving := Some True,
         velocity := Some (Num 2.0)\<rparr>)) = warning
   \<and> ''door'' \<notin> set CRITICAL_OBJECTS"
  by (simp add: createSmartAlert_def generateContextualMessage_def determineAlertType_def
      showDigits truthy_def velocityAbove_def CRITICAL_OBJECTS_def Let_def)

text \<open>
  C10. The alert built by \<open>createSmartAlert\<close> carries a \<open>suppressUntil\<close> timestamp, equal
  to the current time plus the cooldown of 4000 ms, if and only if the detection is more
  than 2 steps away; within 2 steps the field is absent.
\<close>

theorem suppress_until_iff_beyond_two_steps:
  "suppressUntil (createSmartAlert now platformOS d)
     = (if steps d > 2 then Some (now + 4000) else None)
   \<and> (suppressUntil (createSmartAlert now platformOS d) \<noteq> None) = (steps d > 2)"
  by (simp add: createSmartAlert_def ALERT_COOLDOWN_MS_def)

subsection \<open>Object tracker\<close>

lemma trackDetection_first:
  "(case tracker (trackingKey d) of None \<Rightarrow> [] | Some h \<Rightarrow> h) = []
   \<Longrightarrow> trackDetection tracker d = (tracker(trackingKey d \<mapsto> [d]), d)"
  by (simp add: trackDetection_def Let_def TRACKING_HISTORY_SIZE_def)

lemma trackDetection_length:
  assumes "tracker (trackingKey d) = Some h" and "h \<noteq> []"
  shows "length (the (fst (trackDetection tracker d) (trackingKey d))) \<ge> 2"
proof (cases "length h \<ge> 5")
  case True
  then have "length (tl (h @ [d])) \<ge> 2" by simp
  with True assms show ?thesis
    by (simp add: trackDetection_def Let_def TRACKING_HISTORY_SIZE_def)
next
  case False
  moreover have "length (h @ [d]) \<ge> 2" using assms(2) by (cases h) auto
  ultimately show ?thesis using assms
    by (simp add: trackDetection_def Let_def TRACKING_HISTORY_SIZE_def)
qed

lemma trackDetection_single:
  assumes "length (the (fst (trackDetection tracker d) (trackingKey d))) = 1"
  shows "snd (trackDetection tracker d) = d"
proof (cases "(case tracker (trackingKey d) of None \<Rightarrow> [] | Some h \<Rightarrow> h) = []")
  case True
  then show ?thesis by (simp add: trackDetection_first)
next
  case False
  then obtain h where h: "tracker (trackingKey d) = Some h" "h \<noteq> []"
    by (cases "tracker (trackingKey d)") auto
  from trackDetection_length [of tracker d h] h assms show ?thesis by simp
qed

lemma trackAll_fresh:
  "\<forall>d\<in>set ds. tracker (trackingKey d) = None \<Longrightarrow> distinct (map trackingKey ds)
   \<Longrightarrow> snd (trackAll tracker ds) = ds"
proof (induction ds arbitrary: tracker)
  case Nil
  then show ?case by simp
next
  case (Cons d ds)
  have "snd (trackAll (tracker(trackingKey d \<mapsto> [d])) ds) = ds"
    using Cons.prems by (intro Cons.IH) (auto simp: image_iff)
  then show ?case
    using Cons.prems by (auto simp: trackDetection_first split: prod.splits)
qed

lemma trackingKey_movingDoor: "trackingKey movingDoor = ''door_5''"
  by (simp add: trackingKey_def examples showDigits)

text \<open>The claim C5 as stated fails: a detection that arrives marked moving and whose
  key is not tracked yet leaves the tracker still marked moving, with a history of
  exactly one entry.\<close>

theorem single_frame_counterexample:
  "isMoving movingDoor = Some True
   \<and> snd (updateObjectTracking 1000 (constructor 65) [movingDoor]) = [movingDoor]
   \<and> objectTracker (fst (updateObjectTracking 1000 (constructor 65) [movingDoor]))
        (trackingKey movingDoor) = Some [movingDoor]"
  by (simp add: trackingKey_movingDoor updateObjectTracking_def cleanOldTrackingData_def
      trackDetection_def Let_def TRACKING_HISTORY_SIZE_def constructor_def)
    (simp add: examples)

text \<open>
  C5, amended. For every detection whose history holds exactly one entry after the
  tracker has inserted it (the object has been observed in one frame only), the tracker
  assigns neither \<open>isMoving\<close> nor \<open>velocity\<close>: it returns the detection as it arrived,
  so the detection is not marked moving unless the detector delivered it so. In
  particular a tick whose detections have distinct, untracked keys returns them all
  unchanged.
\<close>

theorem single_frame_left_as_delivered:
  "(length (the (fst (trackDetection tracker d) (trackingKey d))) = 1
      \<longrightarrow> snd (trackDetection tracker d) = d)
   \<and> ((\<forall>c\<in>set detections. objectTracker s (trackingKey c) = None)
        \<and> distinct (map trackingKey detections)
      \<longrightarrow> snd (updateObjectTracking now s detections) = detections)"
proof (intro conjI impI)
  assume "length (the (fst (trackDetection tracker d) (trackingKey d))) = 1"
  then show "snd (trackDetection tracker d) = d" by (rule trackDetection_single)
next
  assume "(\<forall>c\<in>set detections. objectTracker s (trackingKey c) = None)
      \<and> distinct (map trackingKey detections)"
  then have "snd (trackAll (objectTracker s) detections) = detections"
    by (intro trackAll_fresh) auto
  then show "snd (updateObjectTracking now s detections) = detections"
    by (auto simp: updateObjectTracking_def split: prod.splits)
qed

theorem single_frame_left_as_delivered_witness:
  "length (the (fst (trackDetection Map.empty exampleChair) (trackingKey exampleChair))) = 1
   \<and> snd (trackDetection Map.empty exampleChair) = exampleChair
   \<and> (objectTracker (constructor 65) (trackingKey exampleChair) = None
       \<and> distinct (map trackingKey [exampleChair]))
   \<and> snd (updateObjectTracking 1000 (constructor 65) [exampleChair]) = [exampleChair]
   \<and> isMoving exampleChair = None"
proof -
  have h1: "length (the (fst (trackDetection Map.empty exampleChair)
      (trackingKey exampleChair))) = 1"
    by (simp add: trackDetection_first)
  have h2: "(\<forall>c\<in>set [exampleChair]. objectTracker (constructor 65) (trackingKey c) = None)
      \<and> distinct (map trackingKey [exampleChair])"
    by (simp add: constructor_def)
  have h3: "isMoving exampleChair = None" by (simp add: examples)
  show ?thesis
    using h1 h2 h3
      single_frame_left_as_delivered [of Map.empty exampleChair "[exampleChair]"
        "constructor 65" 1000]
    by simp
qed

subsection \<open>Clusterer\<close>

lemma absorb_none:
  "\<forall>other\<in>set all. det_id other \<in> P \<or> \<not> nearby d other \<Longrightarrow> absorb d all (c, P) = (c, P)"
  by (induction all) auto

lemma buildClusters_singletons:
  assumes "\<forall>a\<in>set all. \<forall>b\<in>set all. det_id a \<noteq> det_id b \<longrightarrow> \<not> nearby a b"
    and "set rest \<subseteq> set all" and "distinct (map det_id rest)"
    and "det_id ` set rest \<inter> P = {}"
  shows "buildClusters all rest P = map (\<lambda>d. [d]) rest"
  using assms(2-)
proof (induction rest arbitrary: P)
  case Nil
  then show ?case by simp
next
  case (Cons d rest)
  have notP: "det_id d \<notin> P" using Cons.prems by auto
  have dall: "d \<in> set all" using Cons.prems by auto
  have "\<forall>other\<in>set all. det_id other \<in> insert (det_id d) P \<or> \<not> nearby d other"
    using assms(1) dall by auto
  then have ab: "absorb d all ([d], insert (det_id d) P) = ([d], insert (det_id d) P)"
    by (rule absorb_none)
  have "buildClusters all rest (insert (det_id d) P) = map (\<lambda>d. [d]) rest"
    using Cons.prems by (intro Cons.IH) auto
  then show ?case using notP ab by simp
qed

lemma cluster_unmergeable:
  assumes "distinct (map det_id ds)"
    and "\<forall>a\<in>set ds. \<forall>b\<in>set ds. a \<noteq> b \<longrightarrow> \<not> nearby a b"
  shows "clusterNearbyObjects now ds = ds"
proof -
  have "\<forall>a\<in>set ds. \<forall>b\<in>set ds. det_id a \<noteq> det_id b \<longrightarrow> \<not> nearby a b"
    using assms(2) by auto
  then have "buildClusters ds ds {} = map (\<lambda>d. [d]) ds"
    using assms(1) by (intro buildClusters_singletons) auto
  then show ?thesis
    by (simp add: clusterNearbyObjects_def representative_def comp_def)
qed

text \<open>The claim C6 as stated fails: the same three detections (same steps, \<open>x\<close> 0.35,
  0.5 and 0.65) give two representatives when the door comes first, which absorbs the
  chair only, and one representative when the chair comes first, which absorbs both.\<close>

theorem cluster_order_counterexample:
  "mset [exampleChair, exampleDoor, exampleWall] = mset [exampleDoor, exampleChair, exampleWall]
   \<and> map label (clusterNearbyObjects 5000 [exampleDoor, exampleChair, exampleWall])
       = [''door and chair'', ''wall'']
   \<and> map label (clusterNearbyObjects 5000 [exampleChair, exampleDoor, exampleWall])
       = [''3 objects'']"
  by (simp add: clusterNearbyObjects_def representative_def generateClusterLabel_def
      closestOf_def nearby_def CLUSTER_DISTANCE_THRESHOLD_def CRITICAL_OBJECTS_def examples
      showNat.simps digit_def Let_def)

text \<open>
  C6, amended. The clusterer is greedy in input order, and its result depends on that
  order. It is order-independent on the inputs where nothing merges: for a list of
  detections with distinct ids of which no two satisfy the merge predicate, \<open>cluster\<close>
  returns the list unchanged, so every permutation of the list yields the same
  representatives.
\<close>

theorem cluster_order_independent_when_unmergeable:
  assumes "distinct (map det_id ds)"
    and "\<forall>a\<in>set ds. \<forall>b\<in>set ds. a \<noteq> b \<longrightarrow> \<not> nearby a b"
    and "mset ds' = mset ds"
  shows "clusterNearbyObjects now ds = ds
       \<and> mset (clusterNearbyObjects now ds') = mset (clusterNearbyObjects now ds)"
proof -
  have s: "set ds' = set ds" using assms(3) by (rule mset_eq_setD)
  have "mset (map det_id ds') = mset (map det_id ds)" using assms(3) by simp
  then have d: "distinct (map det_id ds')" using assms(1) by (metis mset_eq_imp_distinct_iff)
  have "clusterNearbyObjects now ds' = ds'"
    using d assms(2) s by (intro cluster_unmergeable) auto
  moreover have "clusterNearbyObjects now ds = ds"
    using assms(1,2) by (rule cluster_unmergeable)
  ultimately show ?thesis using assms(3) by simp
qed

theorem cluster_order_independent_when_unmergeable_witness:
  "distinct (map det_id [exampleDoor, exampleWall])
   \<and> \<not> nearby exampleDoor exampleWall \<and> \<not> nearby exampleWall exampleDoor
   \<and> mset [exampleWall, exampleDoor] = mset [exampleDoor, exampleWall]
   \<and> clusterNearbyObjects 5000 [exampleDoor, exampleWall] = [exampleDoor, exampleWall]
   \<and> mset (clusterNearbyObjects 5000 [exampleWall, exampleDoor])
       = mset (clusterNearbyObjects 5000 [exampleDoor, exampleWall])"
proof -
  have h1: "distinct (map det_id [exampleDoor, exampleWall])" by (simp add: examples)
  have n1: "\<not> nearby exampleDoor exampleWall" and n2: "\<not> nearby exampleWall exampleDoor"
    by (simp_all add: nearby_def examples)
  have h2: "\<forall>a\<in>set [exampleDoor, exampleWall]. \<forall>b\<in>set [exampleDoor, exampleWall].
      a \<noteq> b \<longrightarrow> \<not> nearby a b"
    using n1 n2 by simp
  have h3: "mset [exampleWall, exampleDoor] = mset [exampleDoor, exampleWall]" by simp
  show ?thesis
    using h1 n1 n2 h3 cluster_order_independent_when_unmergeable [OF h1 h2 h3, of 5000]
    by blast
qed

subsection \<open>Cooldown table\<close>

lemma sort_key_head:
  assumes "sort_key f xs = t # r"
  shows "t \<in> set xs \<and> (\<forall>v\<in>set xs. f t \<le> f v)"
proof -
  have st: "set (t # r) = set xs" using assms set_sort [of f xs] by simp
  have "sorted (map f (t # r))" using assms sorted_sort_key [of f xs] by simp
  then have "\<forall>v\<in>set (t # r). f t \<le> f v" by auto
  then show ?thesis using st by auto
qed

lemma generateSmartAlerts_empty: "generateSmartAlerts now platformOS s [] = ([], s)"
  by (simp add: generateSmartAlerts_def)

lemma generateSmartAlerts_nonempty:
  assumes "ds \<noteq> []"
  shows "\<exists>top\<in>set ds. (\<forall>d\<in>set ds. calculatePriority d \<le> calculatePriority top)
           \<and> generateSmartAlerts now platformOS s ds =
               ([createSmartAlert now platformOS top],
                s\<lparr>lastAlerts := (lastAlerts s)(label top \<mapsto> now)\<rparr>)"
proof -
  let ?ps = "map (\<lambda>d. (d, calculatePriority d)) ds"
  let ?f = "\<lambda>p::Detection \<times> real. - snd p"
  have "length (sort_key ?f ?ps) = length ds" by simp
  then obtain t r where tr: "sort_key ?f ?ps = t # r"
    using assms by (cases "sort_key ?f ?ps") auto
  from sort_key_head [OF tr] have tin: "t \<in> set ?ps" and tmax: "\<forall>v\<in>set ?ps. ?f t \<le> ?f v"
    by blast+
  from tin have t1: "fst t \<in> set ds" and t2: "snd t = calculatePriority (fst t)" by auto
  have "\<forall>d\<in>set ds. calculatePriority d \<le> calculatePriority (fst t)"
  proof
    fix d assume "d \<in> set ds"
    then have "(d, calculatePriority d) \<in> set ?ps" by auto
    with tmax have "?f t \<le> ?f (d, calculatePriority d)" by blast
    then show "calculatePriority d \<le> calculatePriority (fst t)" using t2 by simp
  qed
  moreover have "generateSmartAlerts now platformOS s ds =
      ([createSmartAlert now platformOS (fst t)],
       s\<lparr>lastAlerts := (lastAlerts s)(label (fst t) \<mapsto> now)\<rparr>)"
    using assms tr by (simp add: generateSmartAlerts_def Let_def)
  ultimately show ?thesis using t1 by blast
qed

lemma pipeline_lastAlerts:
  "lastAlerts (fst (applyDetectionPipeline now s raw)) = lastAlerts (cleanOldTrackingData now s)"
  by (simp add: applyDetectionPipeline_def updateObjectTracking_def cleanOldTrackingData_def
      Let_def split: prod.splits)

lemma processDetections_unfold:
  "processDetections now platformOS s raw =
     generateSmartAlerts now platformOS (fst (applyDetectionPipeline now s raw))
       (snd (applyDetectionPipeline now s raw))"
  by (simp add: processDetections_def split: prod.splits)

text \<open>The claim C7 as stated fails: a tick with no detections emits no alert and yet
  removes the chair entry, which is 39 s old, from the table.\<close>

theorem cooldown_table_counterexample:
  "lastAlerts cooledService ''chair'' = Some 1000
   \<and> fst (processDetections 40000 ''ios'' cooledService []) = []
   \<and> lastAlerts (snd (processDetections 40000 ''ios'' cooledService [])) ''chair'' = None"
  by (simp add: processDetections_def applyDetectionPipeline_def generateSmartAlerts_def
      updateObjectTracking_def cleanOldTrackingData_def filterCenterFOV_def
      filterByMovementAndProximity_def clusterNearbyObjects_def applyTemporalFiltering_def
      Let_def examples)

text \<open>
  C7, amended. The table \<open>lastAlerts\<close> has one entry per label, and an entry is written
  only when an alert is emitted: \<open>generateSmartAlerts\<close> leaves the service unchanged on
  an empty list, and otherwise emits the alert of a detection of greatest priority and
  sets the entry of that detection's label (possibly a cluster label) to the current
  time, and no other entry. On a tick that emits no alert no entry is written, but the
  table is not unchanged: the tracker update of every tick first removes the entries
  older than 30 s, so the table after the tick is the cleaned table, with the emitted
  alert's entry when there is one.
\<close>

theorem cooldown_written_only_on_emission:
  "(detections = [] \<longrightarrow> generateSmartAlerts now platformOS s detections = ([], s))
   \<and> (detections \<noteq> [] \<longrightarrow>
        (\<exists>top\<in>set detections.
           (\<forall>d\<in>set detections. calculatePriority d \<le> calculatePriority top)
           \<and> generateSmartAlerts now platformOS s detections =
               ([createSmartAlert now platformOS top],
                s\<lparr>lastAlerts := (lastAlerts s)(label top \<mapsto> now)\<rparr>)))
   \<and> (fst (processDetections now platformOS s raw) = [] \<longrightarrow>
        lastAlerts (snd (processDetections now platformOS s raw))
          = lastAlerts (cleanOldTrackingData now s))
   \<and> (\<forall>a. fst (processDetections now platformOS s raw) = [a] \<longrightarrow>
        lastAlerts (snd (processDetections now platformOS s raw))
          = (lastAlerts (cleanOldTrackingData now s))(label (detection a) \<mapsto> now))
   \<and> (\<forall>key. lastAlerts (cleanOldTrackingData now s) key =
        (case lastAlerts s key of
           None \<Rightarrow> None
         | Some time \<Rightarrow> if now - time > 30000 then None else Some time))"
proof -
  let ?s' = "fst (applyDetectionPipeline now s raw)"
  let ?ds = "snd (applyDetectionPipeline now s raw)"
  have tick: "(fst (processDetections now platformOS s raw) = [] \<longrightarrow>
        lastAlerts (snd (processDetections now platformOS s raw))
          = lastAlerts (cleanOldTrackingData now s))
   \<and> (\<forall>a. fst (processDetections now platformOS s raw) = [a] \<longrightarrow>
        lastAlerts (snd (processDetections now platformOS s raw))
          = (lastAlerts (cleanOldTrackingData now s))(label (detection a) \<mapsto> now))"
  proof (cases "?ds = []")
    case True
    then show ?thesis
      by (simp add: processDetections_unfold generateSmartAlerts_empty pipeline_lastAlerts)
  next
    case False
    from generateSmartAlerts_nonempty [OF False, of now platformOS ?s']
    obtain top where "generateSmartAlerts now platformOS ?s' ?ds =
        ([createSmartAlert now platformOS top],
         ?s'\<lparr>lastAlerts := (lastAlerts ?s')(label top \<mapsto> now)\<rparr>)"
      by blast
    then show ?thesis
      by (simp add: processDetections_unfold pipeline_lastAlerts createSmartAlert_def)
  qed
  have gc: "\<forall>key. lastAlerts (cleanOldTrackingData now s) key =
        (case lastAlerts s key of
           None \<Rightarrow> None
         | Some time \<Rightarrow> if now - time > 30000 then None else Some time)"
    by (simp add: cleanOldTrackingData_def)
  show ?thesis
    using tick gc generateSmartAlerts_empty [of now platformOS s]
      generateSmartAlerts_nonempty [of detections now platformOS s]
    by blast
qed

lemma exampleChair_fields:
  "label exampleChair = ''chair''" "steps exampleChair = 3" "x exampleChair = 0.5"
  "confidence exampleChair = 0.9" "isMoving exampleChair = None"
  by (simp_all add: exampleChair_def)

lemma cooledService_fields:
  "lastAlerts cooledService ''chair'' = Some 1000" "lastAlerts cooledService ''door'' = None"
  "objectTracker cooledService = Map.empty"
  by (simp_all add: cooledService_def constructor_def)

lemma track_exampleChair:
  "snd (updateObjectTracking 6000 cooledService [exampleChair]) = [exampleChair]
   \<and> lastAlerts (fst (updateObjectTracking 6000 cooledService [exampleChair])) ''chair''
       = Some 1000"
  by (simp add: updateObjectTracking_def trackDetection_first cooledService_fields
      cleanOldTrackingData_def)

lemma keep_exampleChair:
  "confidence exampleChair \<ge> MIN_CONFIDENCE"
  "filterCenterFOV [exampleChair] = [exampleChair]"
  "filterByMovementAndProximity [exampleChair] = [exampleChair]"
  "clusterNearbyObjects 6000 [exampleChair] = [exampleChair]"
  by (simp_all add: MIN_CONFIDENCE_def filterCenterFOV_def CENTER_FOV_THRESHOLD_def
      filterByMovementAndProximity_def keepByMovementAndProximity_def
      clusterNearbyObjects_def exampleChair_fields)

lemma temporal_exampleChair:
  "lastAlerts s' ''chair'' = Some 1000
   \<Longrightarrow> applyTemporalFiltering 6000 s' [exampleChair] = [exampleChair]"
  by (simp add: applyTemporalFiltering_def keepTemporal_def ALERT_COOLDOWN_MS_def
      exampleChair_fields)

lemma pipeline_exampleChair:
  "snd (applyDetectionPipeline 6000 cooledService [exampleChair]) = [exampleChair]"
proof -
  obtain s' ds where u: "updateObjectTracking 6000 cooledService [exampleChair] = (s', ds)"
    by (cases "updateObjectTracking 6000 cooledService [exampleChair]")
  with track_exampleChair
  have ds: "ds = [exampleChair]" and la: "lastAlerts s' ''chair'' = Some 1000"
    by simp_all
  show ?thesis
    by (simp add: applyDetectionPipeline_def keep_exampleChair u ds
        temporal_exampleChair [OF la])
qed

lemma tick_exampleChair:
  "fst (processDetections 6000 ''ios'' cooledService [exampleChair])
     = [createSmartAlert 6000 ''ios'' exampleChair]"
  by (simp add: processDetections_unfold pipeline_exampleChair generateSmartAlerts_def)

lemma tick_empty: "fst (processDetections 40000 ''ios'' cooledService []) = []"
  by (simp add: processDetections_def applyDetectionPipeline_def generateSmartAlerts_def
      updateObjectTracking_def filterCenterFOV_def filterByMovementAndProximity_def
      clusterNearbyObjects_def applyTemporalFiltering_def)

text \<open>At time 6000 the chair cooldown of \<open>cooledService\<close> has run out: the tick emits
  the chair alert and writes the chair entry only. At time 40000 a tick without
  detections emits nothing and leaves the cleaned table.\<close>

theorem cooldown_written_only_on_emission_witness:
  "generateSmartAlerts 6000 ''ios'' cooledService [] = ([], cooledService)
   \<and> generateSmartAlerts 6000 ''ios'' cooledService [exampleChair]
       = ([createSmartAlert 6000 ''ios'' exampleChair],
          cooledService\<lparr>lastAlerts := (lastAlerts cooledService)(''chair'' \<mapsto> 6000)\<rparr>)
   \<and> fst (processDetections 6000 ''ios'' cooledService [exampleChair])
       = [createSmartAlert 6000 ''ios'' exampleChair]
   \<and> lastAlerts (snd (processDetections 6000 ''ios'' cooledService [exampleChair])) ''chair''
       = Some 6000
   \<and> lastAlerts (snd (processDetections 6000 ''ios'' cooledService [exampleChair])) ''door''
       = None
   \<and> fst (processDetections 40000 ''ios'' cooledService []) = []
   \<and> lastAlerts (snd (processDetections 40000 ''ios'' cooledService []))
       = lastAlerts (cleanOldTrackingData 40000 cooledService)"
proof -
  note t1 = cooldown_written_only_on_emission
    [where detections = "[]" and now = 6000 and platformOS = "''ios''"
       and s = cooledService and raw = "[exampleChair]"]
  note t2 = cooldown_written_only_on_emission
    [where detections = "[exampleChair]" and now = 40000 and platformOS = "''ios''"
       and s = cooledService and raw = "[]"]
  note t3 = cooldown_written_only_on_emission
    [where detections = "[exampleChair]" and now = 6000 and platformOS = "''ios''"
       and s = cooledService and raw = "[]"]
  have a: "generateSmartAlerts 6000 ''ios'' cooledService [] = ([], cooledService)"
    using t1 by simp
  have b: "generateSmartAlerts 6000 ''ios'' cooledService [exampleChair]
       = ([createSmartAlert 6000 ''ios'' exampleChair],
          cooledService\<lparr>lastAlerts := (lastAlerts cooledService)(''chair'' \<mapsto> 6000)\<rparr>)"
    using t3 by (simp add: exampleChair_fields)
  have c: "lastAlerts (snd (processDetections 6000 ''ios'' cooledService [exampleChair]))
      = (lastAlerts (cleanOldTrackingData 6000 cooledService))(''chair'' \<mapsto> 6000)"
    using t1 tick_exampleChair by (simp add: createSmartAlert_def exampleChair_fields)
  have d: "lastAlerts (cleanOldTrackingData 6000 cooledService) ''door'' = None"
    using t1 by (simp add: cooledService_fields)
  have e: "lastAlerts (snd (processDetections 40000 ''ios'' cooledService []))
       = lastAlerts (cleanOldTrackingData 40000 cooledService)"
    using t2 tick_empty by simp
  show ?thesis using a b c d e tick_exampleChair tick_empty by simp
qed

end
